theory Spec2Isabelle
  imports Complex_Main
begin

section \<open>Route sampling and segment colouring of TripWeather\<close>

text \<open>
  A shallow embedding of the algorithmic functions of the weather-route service module
  (\<^verbatim>\<open>sampleRoutePoints\<close>, \<^verbatim>\<open>filterSignificantWeatherPoints\<close>,
  \<^verbatim>\<open>createRouteSegments\<close>, \<^verbatim>\<open>haversineDistance\<close>).

  JavaScript numbers are modelled as \<^typ>\<open>real\<close> (exact arithmetic, no rounding, no NaN),
  array indices and WMO weather codes as \<^typ>\<open>int\<close>, and a \<^verbatim>\<open>Date\<close> as its time
  value, a whole number of milliseconds (\<^typ>\<open>int\<close>).
\<close>

subsection \<open>Data model\<close>

text \<open>A route geometry is an array of \<^verbatim>\<open>[lat, lon]\<close> pairs.\<close>

type_synonym geoPoint = "real \<times> real"

text \<open>The objects pushed by \<^verbatim>\<open>sampleRoutePoints\<close>; a flag that is not set reads as false.\<close>

record samplePoint =
  lat :: real
  lon :: real
  time :: int
  geometryIndex :: int
  isStart :: bool
  isEnd :: bool

text \<open>The weather object returned by the weather lookup (\<^verbatim>\<open>null\<close> is \<^const>\<open>None\<close>).\<close>

record weatherObs =
  temperature :: real
  precipitation :: real
  weatherCode :: int

text \<open>
  A sampled point with its weather (\<^verbatim>\<open>{...point, weather}\<close>), and the
  \<^verbatim>\<open>significantReason\<close> the filter adds (\<^const>\<open>None\<close> while the field is absent).
\<close>

record weatherPoint = samplePoint +
  weather :: "weatherObs option"
  significantReason :: "string option"

text \<open>
  The two shapes of object \<^verbatim>\<open>createRouteSegments\<close> returns: the neutral fallback
  \<^verbatim>\<open>{positions, precipitation, color}\<close> and the coloured \<^verbatim>\<open>{positions, color, weather}\<close>.
\<close>

datatype routeSegment =
    NeutralSegment (positions: "geoPoint list") real (color: string)
  | WeatherSegment (positions: "geoPoint list") (color: string) "weatherObs option"


subsection \<open>Array and Date primitives\<close>

text \<open>\<^verbatim>\<open>Array.prototype.findIndex\<close>: the first index whose element satisfies the predicate, or -1.\<close>

fun findIndex :: "('a \<Rightarrow> bool) \<Rightarrow> 'a list \<Rightarrow> int" where
  "findIndex P [] = - 1"
| "findIndex P (x # xs) =
     (if P x then 0 else (let r = findIndex P xs in if r < 0 then - 1 else r + 1))"

text \<open>
  \<^verbatim>\<open>Array.prototype.slice(start, end)\<close> on whole-number arguments: a negative bound counts
  from the end, and both bounds are cut to the array.
\<close>

definition slice :: "'a list \<Rightarrow> int \<Rightarrow> int \<Rightarrow> 'a list" where
  "slice xs start end' =
     (let len = int (length xs);
          k = (if start < 0 then max (len + start) 0 else min start len);
          final = (if end' < 0 then max (len + end') 0 else min end' len)
      in take (nat (final - k)) (drop (nat k) xs))"



subsection \<open>Haversine distance and the cumulative distance table\<close>

text \<open>\<^verbatim>\<open>Math.atan2(y, x)\<close> on real numbers.\<close>

definition atan2 :: "real \<Rightarrow> real \<Rightarrow> real" where
  "atan2 y x =
     (if 0 < x then arctan (y / x)
      else if x < 0 then (if 0 \<le> y then arctan (y / x) + pi else arctan (y / x) - pi)
      else if 0 < y then pi / 2
      else if y < 0 then - (pi / 2)
      else 0)"

definition haversineDistance :: "real \<Rightarrow> real \<Rightarrow> real \<Rightarrow> real \<Rightarrow> real" where
  "haversineDistance lat1 lon1 lat2 lon2 =
     (let R = 6371;
          dLat = (lat2 - lat1) * pi / 180;
          dLon = (lon2 - lon1) * pi / 180;
          a = sin (dLat / 2) * sin (dLat / 2) +
              cos (lat1 * pi / 180) * cos (lat2 * pi / 180) *
              sin (dLon / 2) * sin (dLon / 2);
          c = 2 * atan2 (sqrt a) (sqrt (1 - a))
      in R * c)"

text \<open>
  The table both \<^verbatim>\<open>sampleRoutePoints\<close> and \<^verbatim>\<open>createRouteSegments\<close> build first:
  \<^verbatim>\<open>let cumulativeDistances = [0]; for (let i = 1; i < geometry.length; i++)
  cumulativeDistances.push(cumulativeDistances[i - 1] + dist)\<close>. Every read of the loop is in
  range, so it cannot throw.
\<close>

definition cumulativeDistances :: "geoPoint list \<Rightarrow> real list" where
  "cumulativeDistances geometry =
     foldl (\<lambda>cd i. cd @ [cd ! (i - 1) +
                haversineDistance (fst (geometry ! (i - 1))) (snd (geometry ! (i - 1)))
                                  (fst (geometry ! i)) (snd (geometry ! i))])
       [0] [1..<length geometry]"

subsection \<open>The temporal sampler\<close>




subsection \<open>The significance filter\<close>

definition hasPrecipitation :: "weatherPoint \<Rightarrow> bool" where
  "hasPrecipitation point =
     (case weather point of None \<Rightarrow> False | Some w \<Rightarrow> precipitation w > 0)"

definition isRainyCode :: "int \<Rightarrow> bool" where
  "isRainyCode code = (code \<ge> 51)"

definition weatherCategory :: "int \<Rightarrow> string" where
  "weatherCategory code =
     (if code \<le> 3 then ''clear''
      else if code \<le> 48 then ''fog''
      else if code \<le> 67 then ''rain''
      else if code \<le> 77 then ''snow''
      else if code \<le> 82 then ''showers''
      else ''storm'')"

text \<open>
  The body of the first loop for one point and its predecessor (\<^const>\<open>None\<close> at index 0):
  the pair \<^verbatim>\<open>(isSignificant, reason)\<close> after the checks, each later check overwriting
  the reason.
\<close>

definition classify :: "weatherPoint option \<Rightarrow> weatherPoint \<Rightarrow> bool \<times> string" where
  "classify prevPoint point =
     (let flagged = (if isStart point \<or> isEnd point
                     then (True, if isStart point then ''start'' else ''end'')
                     else (False, ''''))
      in case prevPoint of
           None \<Rightarrow> flagged
         | Some prev \<Rightarrow>
             (case weather point of
                None \<Rightarrow> flagged
              | Some w \<Rightarrow>
                  (case weather prev of
                     None \<Rightarrow> flagged
                   | Some pw \<Rightarrow>
                       (let currentRain = (hasPrecipitation point \<or> isRainyCode (weatherCode w));
                            prevRain = (hasPrecipitation prev \<or> isRainyCode (weatherCode pw));
                            rain = (if currentRain \<noteq> prevRain
                                    then (True, if currentRain then ''rain_start'' else ''rain_end'')
                                    else flagged);
                            tempDiff = \<bar>temperature w - temperature pw\<bar>;
                            temp = (if tempDiff > 3 then (True, ''temp_change'') else rain)
                        in if weatherCategory (weatherCode w) \<noteq> weatherCategory (weatherCode pw)
                           then (True, ''weather_change'')
                           else temp))))"

text \<open>The first loop: the significant points, annotated, in input order.\<close>

definition classifyAll :: "weatherPoint list \<Rightarrow> weatherPoint list" where
  "classifyAll weatherPoints =
     concat (map (\<lambda>i. let point = weatherPoints ! i;
                           prevPoint = (if i > 0 then Some (weatherPoints ! (i - 1)) else None);
                           (isSignificant, reason) = classify prevPoint point
                       in if isSignificant then [point\<lparr>significantReason := Some reason\<rparr>] else [])
                 [0..<length weatherPoints])"

text \<open>
  The injection loop \<^verbatim>\<open>for (let i = interval; i < weatherPoints.length - 1; i += interval)\<close>.
  It is only entered with \<^verbatim>\<open>interval = floor(length / 4)\<close> and \<^verbatim>\<open>length > 4\<close>, so the
  stride is positive there; the guard \<open>0 < interval\<close> makes the recursion total.
\<close>

function injectLoop ::
  "weatherPoint list \<Rightarrow> nat \<Rightarrow> nat \<Rightarrow> weatherPoint list \<Rightarrow> weatherPoint list" where
  "injectLoop weatherPoints interval i significant =
     (if 0 < interval \<and> i + 1 < length weatherPoints
      then injectLoop weatherPoints interval (i + interval)
             (if find (\<lambda>p. time p = time (weatherPoints ! i)) significant = None
              then significant @ [(weatherPoints ! i)\<lparr>significantReason := Some ''interval''\<rparr>]
              else significant)
      else significant)"
  by pat_completeness auto
termination
  by (relation "measure (\<lambda>(weatherPoints, interval, i, significant). length weatherPoints - i)")
     auto

declare injectLoop.simps [simp del]

text \<open>
  The comparator key \<^verbatim>\<open>priority[p.significantReason] || 6\<close>: a reason missing from the
  table gives \<^verbatim>\<open>undefined\<close>, and \<^verbatim>\<open>||\<close> replaces every falsy value, 0 included, by 6.
\<close>

definition priority :: "(string \<times> int) list" where
  "priority = [(''start'', 0), (''end'', 1), (''rain_start'', 2), (''rain_end'', 3),
               (''weather_change'', 4), (''temp_change'', 5), (''interval'', 6)]"

definition priorityKey :: "weatherPoint \<Rightarrow> int" where
  "priorityKey p =
     (case significantReason p of
        None \<Rightarrow> 6
      | Some r \<Rightarrow> (case map_of priority r of None \<Rightarrow> 6 | Some v \<Rightarrow> if v = 0 then 6 else v))"

text \<open>
  The significant points after the first two passes. \<^verbatim>\<open>Array.prototype.sort\<close> is stable,
  as \<^const>\<open>sort_key\<close> is.
\<close>

definition significantPoints :: "weatherPoint list \<Rightarrow> weatherPoint list" where
  "significantPoints weatherPoints =
     (let significant = classifyAll weatherPoints
      in if length significant < 4 \<and> length weatherPoints > 4
         then (let interval = length weatherPoints div 4
               in sort_key time (injectLoop weatherPoints interval interval significant))
         else significant)"

definition filterSignificantWeatherPoints :: "weatherPoint list \<Rightarrow> int \<Rightarrow> weatherPoint list" where
  "filterSignificantWeatherPoints weatherPoints maxPoints =
     (if length weatherPoints \<le> 3 then weatherPoints
      else (let significant = significantPoints weatherPoints
            in if int (length significant) > maxPoints
               then (let prioritized = sort_key priorityKey significant
                     in sort_key time (slice prioritized 0 maxPoints))
               else significant))"

subsection \<open>The segment colourer\<close>

definition dangerousCodes :: "int list" where
  "dangerousCodes = [56, 57, 66, 67, 71, 73, 75, 77, 85, 86, 95, 96, 99]"

definition getColorForWeather :: "weatherObs option \<Rightarrow> string" where
  "getColorForWeather weather' =
     (case weather' of
        None \<Rightarrow> ''#94a3b8''
      | Some w \<Rightarrow>
          if weatherCode w \<in> set dangerousCodes then ''#ef4444''
          else (let p = precipitation w
                in if p \<le> 0 then ''#22c55e''
                   else if p < 0.5 then ''#fbbf24''
                   else if p < 2.0 then ''#f97316''
                   else ''#ef4444''))"

text \<open>
  The index resolution of one pair: both targets are looked up in the table, then
  \<^verbatim>\<open>if (startIdx <= 0) startIdx = 0; if (endIdx <= 0) endIdx = geometry.length - 1;
  if (endIdx >= geometry.length) endIdx = geometry.length - 1;
  if (startIdx > endIdx) startIdx = endIdx\<close>.
\<close>

definition segmentIndices :: "geoPoint list \<Rightarrow> real list \<Rightarrow> real \<Rightarrow> real \<Rightarrow> int \<times> int" where
  "segmentIndices geometry cumulativeDistances' startDistance endDistance =
     (let startIdx = findIndex (\<lambda>d. d \<ge> startDistance) cumulativeDistances';
          endIdx = findIndex (\<lambda>d. d \<ge> endDistance) cumulativeDistances';
          startIdx = (if startIdx \<le> 0 then 0 else startIdx);
          endIdx = (if endIdx \<le> 0 then int (length geometry) - 1 else endIdx);
          endIdx = (if endIdx \<ge> int (length geometry) then int (length geometry) - 1 else endIdx);
          startIdx = (if startIdx > endIdx then endIdx else startIdx)
      in (startIdx, endIdx))"

text \<open>The slice of the geometry between the indices resolved for one pair of weather points.\<close>

definition fullSegmentPositions ::
  "geoPoint list \<Rightarrow> real list \<Rightarrow> real \<Rightarrow> real \<Rightarrow> int \<Rightarrow> weatherPoint \<Rightarrow> weatherPoint
     \<Rightarrow> geoPoint list" where
  "fullSegmentPositions geometry cumulativeDistances' totalDistance totalDuration startTime
       startPoint endPoint =
     (let startProgress = (of_int (time startPoint) - of_int startTime) / (totalDuration * 1000);
          endProgress = (of_int (time endPoint) - of_int startTime) / (totalDuration * 1000);
          startDistance = startProgress * totalDistance;
          endDistance = endProgress * totalDistance;
          (startIdx, endIdx) = segmentIndices geometry cumulativeDistances' startDistance endDistance
      in slice geometry startIdx (endIdx + 1))"

text \<open>The segments one pair pushes: none for a slice of fewer than 2 points, else its halves.\<close>

definition pairSegments ::
  "geoPoint list \<Rightarrow> real list \<Rightarrow> real \<Rightarrow> real \<Rightarrow> int \<Rightarrow> weatherPoint \<Rightarrow> weatherPoint
     \<Rightarrow> routeSegment list" where
  "pairSegments geometry cumulativeDistances' totalDistance totalDuration startTime
       startPoint endPoint =
     (let full = fullSegmentPositions geometry cumulativeDistances' totalDistance totalDuration
                   startTime startPoint endPoint
      in if length full < 2 then []
         else (let splitIndex = int (length full div 2);
                   positionsPart1 = slice full 0 (splitIndex + 1);
                   positionsPart2 = slice full splitIndex (int (length full));
                   color1 = getColorForWeather (weather startPoint);
                   color2 = getColorForWeather (weather endPoint)
               in (if length positionsPart1 > 1
                   then [WeatherSegment positionsPart1 color1 (weather startPoint)] else []) @
                  (if length positionsPart2 > 1
                   then [WeatherSegment positionsPart2 color2 (weather endPoint)] else [])))"

text \<open>The loop over the consecutive pairs \<^verbatim>\<open>(weatherPoints[i], weatherPoints[i + 1])\<close>.\<close>

fun segmentLoop ::
  "(weatherPoint \<Rightarrow> weatherPoint \<Rightarrow> routeSegment list) \<Rightarrow> weatherPoint list \<Rightarrow> routeSegment list"
  where
  "segmentLoop body (startPoint # endPoint # rest) =
     body startPoint endPoint @ segmentLoop body (endPoint # rest)"
| "segmentLoop body _ = []"

text \<open>
  \<^verbatim>\<open>createRouteSegments(geometry, weatherPoints, totalDuration, startTime)\<close>; a
  \<^verbatim>\<open>weatherPoints\<close> that is \<^verbatim>\<open>null\<close> or \<^verbatim>\<open>undefined\<close> is \<^const>\<open>None\<close>. Nothing
  in it reads a component of an array element outside the table loop, so it cannot throw.
\<close>

definition createRouteSegments ::
  "geoPoint list \<Rightarrow> weatherPoint list option \<Rightarrow> real \<Rightarrow> int \<Rightarrow> routeSegment list" where
  "createRouteSegments geometry weatherPoints totalDuration startTime =
     (case weatherPoints of
        None \<Rightarrow> [NeutralSegment geometry 0 ''#58a6ff'']
      | Some ws \<Rightarrow>
          if length ws < 2 then [NeutralSegment geometry 0 ''#58a6ff'']
          else (let cumulativeDistances' = cumulativeDistances geometry;
                    totalDistance = last cumulativeDistances';
                    segments = segmentLoop (pairSegments geometry cumulativeDistances' totalDistance
                                              totalDuration startTime) ws
                in if length segments = 0 then [NeutralSegment geometry 0 ''#58a6ff'']
                   else segments))"

subsection \<open>Derived notions and sample inputs\<close>

text \<open>The filter's possible outputs for an input: its elements with any reason written in.\<close>

definition annotations :: "weatherPoint list \<Rightarrow> weatherPoint set" where
  "annotations ws = {q\<lparr>significantReason := r\<rparr> | q r. q \<in> set ws}"





text \<open>A weather point at the origin with no weather, for the examples.\<close>

definition plainPoint :: "int \<Rightarrow> bool \<Rightarrow> bool \<Rightarrow> weatherPoint" where
  "plainPoint t s e = \<lparr>lat = 0, lon = 0, time = t, geometryIndex = 0, isStart = s, isEnd = e,
                       weather = None, significantReason = None\<rparr>"

section \<open>Properties\<close>

subsection \<open>The colour mapping\<close>

text \<open>
  C5. The colour of an observation is a function of the observation alone: no observation
  gives grey \<open>#94a3b8\<close>; a weather code in \<open>{56,57,66,67,71,73,75,77,85,86,95,96,99}\<close> gives red
  \<open>#ef4444\<close> whatever the precipitation; otherwise precipitation \<open>\<le> 0\<close> gives green
  \<open>#22c55e\<close>, below 0.5 yellow \<open>#fbbf24\<close>, below 2.0 orange \<open>#f97316\<close>, and from 2.0 on red
  \<open>#ef4444\<close>.
\<close>

theorem getColorForWeather_table:
  "getColorForWeather None = ''#94a3b8'' \<and>
   (weatherCode w \<in> {56, 57, 66, 67, 71, 73, 75, 77, 85, 86, 95, 96, 99}
      \<longrightarrow> getColorForWeather (Some w) = ''#ef4444'') \<and>
   (weatherCode w \<notin> {56, 57, 66, 67, 71, 73, 75, 77, 85, 86, 95, 96, 99}
      \<longrightarrow> getColorForWeather (Some w) =
         (if precipitation w \<le> 0 then ''#22c55e''
          else if precipitation w < 0.5 then ''#fbbf24''
          else if precipitation w < 2.0 then ''#f97316''
          else ''#ef4444''))"
  by (simp add: getColorForWeather_def dangerousCodes_def)

theorem getColorForWeather_table_witness:
  "getColorForWeather (Some \<lparr>temperature = 20, precipitation = 0, weatherCode = 95\<rparr>) = ''#ef4444''
   \<and> getColorForWeather (Some \<lparr>temperature = 20, precipitation = 0, weatherCode = 0\<rparr>) = ''#22c55e''"
  using getColorForWeather_table [of "\<lparr>temperature = 20, precipitation = 0, weatherCode = 95\<rparr>"]
        getColorForWeather_table [of "\<lparr>temperature = 20, precipitation = 0, weatherCode = 0\<rparr>"]
  by simp

subsection \<open>The significance filter\<close>

lemma annotationsI: "q \<in> set ws \<Longrightarrow> q\<lparr>significantReason := r\<rparr> \<in> annotations ws"
  unfolding annotations_def by blast

lemma classifyAll_annotations: "set (classifyAll ws) \<subseteq> annotations ws"
proof
  fix p assume "p \<in> set (classifyAll ws)"
  then obtain i where i: "i < length ws"
    and p: "p \<in> set (let point = ws ! i;
                           prevPoint = (if i > 0 then Some (ws ! (i - 1)) else None);
                           (isSignificant, reason) = classify prevPoint point
                       in if isSignificant then [point\<lparr>significantReason := Some reason\<rparr>] else [])"
    unfolding classifyAll_def by auto
  from p have "\<exists>r. p = (ws ! i)\<lparr>significantReason := r\<rparr>"
    by (auto simp add: Let_def split: prod.splits if_splits)
  with i show "p \<in> annotations ws" using annotationsI [of "ws ! i" ws] by auto
qed

lemma injectLoop_stop:
  "\<not> (0 < interval \<and> i + 1 < length ws) \<Longrightarrow> injectLoop ws interval i significant = significant"
  by (subst injectLoop.simps) auto

lemma injectLoop_step:
  "0 < interval \<and> i + 1 < length ws \<Longrightarrow>
   injectLoop ws interval i significant =
   injectLoop ws interval (i + interval)
             (if find (\<lambda>p. time p = time (ws ! i)) significant = None
              then significant @ [(ws ! i)\<lparr>significantReason := Some ''interval''\<rparr>]
              else significant)"
  by (subst injectLoop.simps) simp

lemma injectLoop_annotations:
  "set significant \<subseteq> annotations ws \<Longrightarrow>
   set (injectLoop ws interval i significant) \<subseteq> annotations ws"
proof (induction ws interval i significant rule: injectLoop.induct)
  case (1 ws interval i significant)
  show ?case
  proof (cases "0 < interval \<and> i + 1 < length ws")
    case True
    let ?s = "(if find (\<lambda>p. time p = time (ws ! i)) significant = None
              then significant @ [(ws ! i)\<lparr>significantReason := Some ''interval''\<rparr>]
              else significant)"
    from True have "ws ! i \<in> set ws" by simp
    then have "(ws ! i)\<lparr>significantReason := Some ''interval''\<rparr> \<in> annotations ws"
      by (rule annotationsI)
    with "1.prems" have "set ?s \<subseteq> annotations ws" by simp
    with "1.IH" [OF True]
    have "set (injectLoop ws interval (i + interval) ?s) \<subseteq> annotations ws" .
    then show ?thesis by (simp only: injectLoop_step [OF True])
  next
    case False
    with "1.prems" show ?thesis by (simp only: injectLoop_stop [OF False])
  qed
qed

lemma injectLoop_keeps:
  "set significant \<subseteq> set (injectLoop ws interval i significant)"
proof (induction ws interval i significant rule: injectLoop.induct)
  case (1 ws interval i significant)
  show ?case
  proof (cases "0 < interval \<and> i + 1 < length ws")
    case True
    let ?s = "(if find (\<lambda>p. time p = time (ws ! i)) significant = None
              then significant @ [(ws ! i)\<lparr>significantReason := Some ''interval''\<rparr>]
              else significant)"
    have "set significant \<subseteq> set ?s" by auto
    also from "1.IH" [OF True]
    have "set ?s \<subseteq> set (injectLoop ws interval (i + interval) ?s)" .
    finally show ?thesis by (simp only: injectLoop_step [OF True])
  next
    case False
    then show ?thesis by (simp only: injectLoop_stop [OF False] subset_refl)
  qed
qed

lemma significantPoints_annotations: "set (significantPoints ws) \<subseteq> annotations ws"
  using classifyAll_annotations [of ws] injectLoop_annotations [OF classifyAll_annotations]
  by (simp add: significantPoints_def Let_def)

lemma classifyAll_subset_significantPoints:
  "set (classifyAll ws) \<subseteq> set (significantPoints ws)"
  using injectLoop_keeps by (simp add: significantPoints_def Let_def)

lemma set_slice_subset: "set (slice xs a b) \<subseteq> set xs"
  unfolding slice_def Let_def by (meson set_take_subset set_drop_subset subset_trans)

lemma filter_annotations:
  "set (filterSignificantWeatherPoints ws maxPoints) \<subseteq> set ws \<union> annotations ws"
proof -
  have "set (slice (sort_key priorityKey (significantPoints ws)) 0 maxPoints) \<subseteq> annotations ws"
    using set_slice_subset [of "sort_key priorityKey (significantPoints ws)" 0 maxPoints]
      significantPoints_annotations [of ws] by auto
  then show ?thesis
    using significantPoints_annotations [of ws]
    by (auto simp: filterSignificantWeatherPoints_def Let_def)
qed

lemma length_slice0: "0 \<le> n \<Longrightarrow> int (length (slice xs 0 n)) \<le> n"
  by (simp add: slice_def Let_def)

lemma classify_flagged: "isStart p \<or> isEnd p \<Longrightarrow> fst (classify prev p)"
  by (auto simp: classify_def Let_def split: option.splits)

lemma flagged_in_classifyAll:
  assumes "i < length ws" and "isStart (ws ! i) \<or> isEnd (ws ! i)"
  shows "\<exists>r. (ws ! i)\<lparr>significantReason := r\<rparr> \<in> set (classifyAll ws)"
proof -
  let ?prev = "if i > 0 then Some (ws ! (i - 1)) else None"
  from assms(2) have "fst (classify ?prev (ws ! i))" by (rule classify_flagged)
  then have "(ws ! i)\<lparr>significantReason := Some (snd (classify ?prev (ws ! i)))\<rparr>
      \<in> set (let point = ws ! i;
                  prevPoint = (if i > 0 then Some (ws ! (i - 1)) else None);
                  (isSignificant, reason) = classify prevPoint point
              in if isSignificant then [point\<lparr>significantReason := Some reason\<rparr>] else [])"
    by (cases "classify ?prev (ws ! i)") (auto simp: Let_def)
  with assms(1)
  have "(ws ! i)\<lparr>significantReason := Some (snd (classify ?prev (ws ! i)))\<rparr> \<in> set (classifyAll ws)"
    unfolding classifyAll_def by auto
  then show ?thesis by blast
qed

lemma flagged_kept:
  assumes "length ws > 3" and "int (length (significantPoints ws)) \<le> maxPoints"
    and "i < length ws" and "isStart (ws ! i) \<or> isEnd (ws ! i)"
  shows "\<exists>r. (ws ! i)\<lparr>significantReason := r\<rparr> \<in> set (filterSignificantWeatherPoints ws maxPoints)"
proof -
  from assms(1,2) have "filterSignificantWeatherPoints ws maxPoints = significantPoints ws"
    by (simp add: filterSignificantWeatherPoints_def Let_def)
  with flagged_in_classifyAll [OF assms(3,4)] classifyAll_subset_significantPoints [of ws]
  show ?thesis by auto
qed

lemmas filter_eval =
  filterSignificantWeatherPoints_def significantPoints_def classifyAll_def classify_def
  plainPoint_def slice_def priorityKey_def priority_def upt_rec

text \<open>
  C2, as the code has it. An input of at most 3 points is returned unchanged, whatever
  \<open>maxPoints\<close> is. For a longer input and \<open>maxPoints \<ge> 0\<close> the result has at most
  \<open>maxPoints\<close> elements. For a longer input of which no more than \<open>maxPoints\<close> significant
  points remain after the first two passes, the first input element, if it is flagged
  \<open>isStart\<close> or \<open>isEnd\<close>, is in the result (with a reason written in), and so is the last.
\<close>

theorem filter_bounded_amended:
  "(length weatherPoints \<le> 3 \<longrightarrow>
      filterSignificantWeatherPoints weatherPoints maxPoints = weatherPoints) \<and>
   (length weatherPoints > 3 \<and> 0 \<le> maxPoints \<longrightarrow>
      int (length (filterSignificantWeatherPoints weatherPoints maxPoints)) \<le> maxPoints) \<and>
   (length weatherPoints > 3 \<and> int (length (significantPoints weatherPoints)) \<le> maxPoints \<and>
    (isStart (hd weatherPoints) \<or> isEnd (hd weatherPoints)) \<longrightarrow>
      (\<exists>r. (hd weatherPoints)\<lparr>significantReason := r\<rparr>
             \<in> set (filterSignificantWeatherPoints weatherPoints maxPoints))) \<and>
   (length weatherPoints > 3 \<and> int (length (significantPoints weatherPoints)) \<le> maxPoints \<and>
    (isStart (last weatherPoints) \<or> isEnd (last weatherPoints)) \<longrightarrow>
      (\<exists>r. (last weatherPoints)\<lparr>significantReason := r\<rparr>
             \<in> set (filterSignificantWeatherPoints weatherPoints maxPoints)))"
proof (intro conjI impI)
  assume "length weatherPoints \<le> 3"
  then show "filterSignificantWeatherPoints weatherPoints maxPoints = weatherPoints"
    by (simp add: filterSignificantWeatherPoints_def)
next
  assume "length weatherPoints > 3 \<and> 0 \<le> maxPoints"
  then show "int (length (filterSignificantWeatherPoints weatherPoints maxPoints)) \<le> maxPoints"
    using length_slice0 [of maxPoints "sort_key priorityKey (significantPoints weatherPoints)"]
    by (simp add: filterSignificantWeatherPoints_def Let_def)
next
  assume a: "length weatherPoints > 3 \<and> int (length (significantPoints weatherPoints)) \<le> maxPoints \<and>
    (isStart (hd weatherPoints) \<or> isEnd (hd weatherPoints))"
  then have h: "hd weatherPoints = weatherPoints ! 0" and n: "0 < length weatherPoints"
    by (cases weatherPoints, simp_all)+
  from a have "isStart (weatherPoints ! 0) \<or> isEnd (weatherPoints ! 0)"
    unfolding h by blast
  with a n flagged_kept [of weatherPoints maxPoints 0]
  show "\<exists>r. (hd weatherPoints)\<lparr>significantReason := r\<rparr>
             \<in> set (filterSignificantWeatherPoints weatherPoints maxPoints)"
    unfolding h by blast
next
  assume a: "length weatherPoints > 3 \<and> int (length (significantPoints weatherPoints)) \<le> maxPoints \<and>
    (isStart (last weatherPoints) \<or> isEnd (last weatherPoints))"
  then have h: "last weatherPoints = weatherPoints ! (length weatherPoints - 1)"
    and n: "length weatherPoints - 1 < length weatherPoints"
    by (cases "weatherPoints = []", simp_all add: last_conv_nth)+
  from a have "isStart (weatherPoints ! (length weatherPoints - 1)) \<or>
               isEnd (weatherPoints ! (length weatherPoints - 1))"
    unfolding h by blast
  with a n flagged_kept [of weatherPoints maxPoints "length weatherPoints - 1"]
  show "\<exists>r. (last weatherPoints)\<lparr>significantReason := r\<rparr>
             \<in> set (filterSignificantWeatherPoints weatherPoints maxPoints)"
    unfolding h by blast
qed

theorem filter_bounded_amended_witness:
  "int (length (filterSignificantWeatherPoints
     [plainPoint 0 True False, plainPoint 900000 False False, plainPoint 1800000 False False,
      plainPoint 2700000 False True] 2)) \<le> 2
   \<and> (\<exists>r. (plainPoint 0 True False)\<lparr>significantReason := r\<rparr> \<in> set (filterSignificantWeatherPoints
     [plainPoint 0 True False, plainPoint 900000 False False, plainPoint 1800000 False False,
      plainPoint 2700000 False True] 2))
   \<and> (\<exists>r. (plainPoint 2700000 False True)\<lparr>significantReason := r\<rparr> \<in> set (filterSignificantWeatherPoints
     [plainPoint 0 True False, plainPoint 900000 False False, plainPoint 1800000 False False,
      plainPoint 2700000 False True] 2))
   \<and> filterSignificantWeatherPoints [plainPoint 0 True False] 0 = [plainPoint 0 True False]"
proof -
  let ?ws = "[plainPoint 0 True False, plainPoint 900000 False False, plainPoint 1800000 False False,
      plainPoint 2700000 False True]"
  have s: "int (length (significantPoints ?ws)) \<le> 2" by (simp add: filter_eval)
  have l: "length ?ws > 3" by simp
  have a: "isStart (hd ?ws) \<or> isEnd (hd ?ws)" by (simp add: plainPoint_def)
  have b: "isStart (last ?ws) \<or> isEnd (last ?ws)" by (simp add: plainPoint_def)
  have hd: "hd ?ws = plainPoint 0 True False" and last: "last ?ws = plainPoint 2700000 False True"
    by simp_all
  have one: "length [plainPoint 0 True False] \<le> 3" by simp
  from filter_bounded_amended [of "[plainPoint 0 True False]" 0] one
  have c1: "filterSignificantWeatherPoints [plainPoint 0 True False] 0 = [plainPoint 0 True False]"
    by blast
  from filter_bounded_amended [of ?ws 2] l
  have c2: "int (length (filterSignificantWeatherPoints ?ws 2)) \<le> 2" by simp
  from filter_bounded_amended [of ?ws 2] l s a
  have c3: "\<exists>r. (hd ?ws)\<lparr>significantReason := r\<rparr> \<in> set (filterSignificantWeatherPoints ?ws 2)"
    by blast
  from filter_bounded_amended [of ?ws 2] l s b
  have c4: "\<exists>r. (last ?ws)\<lparr>significantReason := r\<rparr> \<in> set (filterSignificantWeatherPoints ?ws 2)"
    by blast
  from c1 c2 c3 c4 show ?thesis unfolding hd last by blast
qed

text \<open>
  C2, as stated, fails: three points come back from a call with \<open>maxPoints = 2\<close>; four
  points without flags or weather give the empty result, which holds neither the first nor
  the last of them; and \<open>maxPoints = 0\<close> leaves nothing of a flagged input.
\<close>

theorem filter_bounded_counterexample:
  "length (filterSignificantWeatherPoints
     [plainPoint 0 True False, plainPoint 900000 False False, plainPoint 1800000 False True] 2) = 3
   \<and> filterSignificantWeatherPoints
     [plainPoint 0 False False, plainPoint 900000 False False, plainPoint 1800000 False False,
      plainPoint 2700000 False False] 8 = []
   \<and> filterSignificantWeatherPoints
     [plainPoint 0 True False, plainPoint 900000 False False, plainPoint 1800000 False False,
      plainPoint 2700000 False True] 0 = []"
  by (simp add: filter_eval)

text \<open>
  C3 at a concrete input. Of the two significant points \<open>start\<close> and \<open>end\<close>, a call with
  \<open>maxPoints = 1\<close> keeps the one of best priority. The table gives \<open>start\<close> priority 0, but
  the key \<^verbatim>\<open>priority[...] || 6\<close> turns that 0 into 6, so \<open>end\<close> (key 1) is kept and the
  start point is dropped.
\<close>

theorem filter_start_priority_eval:
  "filterSignificantWeatherPoints
     [plainPoint 0 True False, plainPoint 900000 False False, plainPoint 1800000 False False,
      plainPoint 2700000 False True] 1
   = [(plainPoint 2700000 False True)\<lparr>significantReason := Some ''end''\<rparr>]
   \<and> priorityKey ((plainPoint 0 True False)\<lparr>significantReason := Some ''start''\<rparr>) = 6
   \<and> priorityKey ((plainPoint 2700000 False True)\<lparr>significantReason := Some ''end''\<rparr>) = 1"
  by (simp add: filter_eval)

text \<open>
  C9. Every element of the filter's result is an element of the input in every field
  (position, time, geometry index, flags and weather observation) except possibly
  \<open>significantReason\<close>.
\<close>

theorem filter_selects_and_annotates:
  "\<forall>p \<in> set (filterSignificantWeatherPoints weatherPoints maxPoints).
     \<exists>q \<in> set weatherPoints.
       lat p = lat q \<and> lon p = lon q \<and> time p = time q \<and> geometryIndex p = geometryIndex q \<and>
       isStart p = isStart q \<and> isEnd p = isEnd q \<and> weather p = weather q \<and>
       p = q\<lparr>significantReason := significantReason p\<rparr>"
proof
  fix p assume "p \<in> set (filterSignificantWeatherPoints weatherPoints maxPoints)"
  with filter_annotations have "p \<in> set weatherPoints \<union> annotations weatherPoints" by blast
  then have "\<exists>q r. q \<in> set weatherPoints \<and> p = q\<lparr>significantReason := r\<rparr>"
  proof
    assume "p \<in> set weatherPoints"
    moreover have "p = p\<lparr>significantReason := significantReason p\<rparr>" by simp
    ultimately show ?thesis by blast
  next
    assume "p \<in> annotations weatherPoints"
    then show ?thesis unfolding annotations_def by blast
  qed
  then obtain q r where q: "q \<in> set weatherPoints" and p: "p = q\<lparr>significantReason := r\<rparr>"
    by blast
  from p have "lat p = lat q \<and> lon p = lon q \<and> time p = time q \<and> geometryIndex p = geometryIndex q \<and>
       isStart p = isStart q \<and> isEnd p = isEnd q \<and> weather p = weather q \<and>
       p = q\<lparr>significantReason := significantReason p\<rparr>" by simp
  with q show "\<exists>q \<in> set weatherPoints.
       lat p = lat q \<and> lon p = lon q \<and> time p = time q \<and> geometryIndex p = geometryIndex q \<and>
       isStart p = isStart q \<and> isEnd p = isEnd q \<and> weather p = weather q \<and>
       p = q\<lparr>significantReason := significantReason p\<rparr>"
    by blast
qed

theorem filter_selects_and_annotates_witness:
  "\<exists>q \<in> set [plainPoint 0 True False, plainPoint 900000 False False,
              plainPoint 1800000 False False, plainPoint 2700000 False True].
     weather ((plainPoint 2700000 False True)\<lparr>significantReason := Some ''end''\<rparr>) = weather q \<and>
     (plainPoint 2700000 False True)\<lparr>significantReason := Some ''end''\<rparr>
       = q\<lparr>significantReason := Some ''end''\<rparr>"
proof -
  let ?ws = "[plainPoint 0 True False, plainPoint 900000 False False, plainPoint 1800000 False False,
      plainPoint 2700000 False True]"
  have "filterSignificantWeatherPoints ?ws 1
        = [(plainPoint 2700000 False True)\<lparr>significantReason := Some ''end''\<rparr>]"
    by (simp add: filter_eval)
  with filter_selects_and_annotates [of ?ws 1] show ?thesis by simp
qed

subsection \<open>Haversine distance and the cumulative distance table\<close>





lemma haversineDistance_same: "haversineDistance la lo la lo = 0"
  by (simp add: haversineDistance_def atan2_def)

lemma haversineDistance_equator:
  assumes "0 \<le> d" and "d \<le> 180"
  shows "haversineDistance 0 x 0 (x + d) = 6371 * (d * pi / 180)"
proof -
  let ?t = "d * pi / 360"
  have t0: "0 \<le> ?t" using assms by simp
  have t1: "?t \<le> pi / 2" using assms by (simp add: field_simps)
  have pi0: "0 < pi" by simp
  have tl: "- (pi / 2) < ?t" using t0 pi0 by linarith
  have tu: "?t \<le> pi" using t1 pi0 by linarith
  have s: "0 \<le> sin ?t" using t0 tu by (rule sin_ge_zero)
  have c: "0 \<le> cos ?t" using tl t1 by (intro cos_ge_zero) simp_all
  have sq: "sqrt (sin ?t * sin ?t) = sin ?t" using s by simp
  have "1 - sin ?t * sin ?t = cos ?t * cos ?t"
    using sin_cos_squared_add [of ?t] by (simp add: power2_eq_square)
  then have cq: "sqrt (1 - sin ?t * sin ?t) = cos ?t" using c by simp
  have at: "atan2 (sin ?t) (cos ?t) = ?t"
  proof (cases "cos ?t = 0")
    case True
    then have "sin ?t * sin ?t = 1" using sin_cos_squared_add [of ?t] by (simp add: power2_eq_square)
    with s have s1: "sin ?t = 1" by (metis abs_of_nonneg real_sqrt_abs2 real_sqrt_one)
    have "?t = pi / 2"
    proof (rule ccontr)
      assume "?t \<noteq> pi / 2"
      with t1 have "?t < pi / 2" by simp
      with tl have "0 < cos ?t" by (intro cos_gt_zero_pi)
      with True show False by simp
    qed
    with True s1 show ?thesis by (simp add: atan2_def)
  next
    case False
    with c have pos: "0 < cos ?t" by simp
    have "?t < pi / 2"
    proof (rule ccontr)
      assume "\<not> ?t < pi / 2"
      with t1 have "?t = pi / 2" by simp
      then have "cos ?t = 0" by simp
      with False show False by simp
    qed
    with tl have "arctan (tan ?t) = ?t" by (intro arctan_tan)
    with pos show ?thesis by (simp add: atan2_def tan_def)
  qed
  have "haversineDistance 0 x 0 (x + d) =
          6371 * (2 * atan2 (sqrt (sin ?t * sin ?t)) (sqrt (1 - sin ?t * sin ?t)))"
    by (simp add: haversineDistance_def Let_def)
  also have "\<dots> = 6371 * (2 * ?t)" by (simp only: sq cq at)
  also have "\<dots> = 6371 * (d * pi / 180)" by simp
  finally show ?thesis .
qed


lemma table_loop:
  fixes h :: "nat \<Rightarrow> real"
  defines "F \<equiv> \<lambda>n. foldl (\<lambda>cd i. cd @ [cd ! (i - 1) + h i]) [0] [1..<n]"
  assumes "1 \<le> n"
  shows "length (F n) = n \<and> F n ! 0 = 0 \<and> (\<forall>i. 1 \<le> i \<and> i < n \<longrightarrow> F n ! i = F n ! (i - 1) + h i)"
  using assms(2)
proof (induction n rule: nat_induct_at_least)
  case base
  show ?case by (simp add: F_def)
next
  case (Suc n)
  have step: "F (Suc n) = F n @ [F n ! (n - 1) + h n]"
    using Suc.hyps by (simp add: F_def)
  from Suc.IH have len: "length (F n) = n" and zero: "F n ! 0 = 0"
    and rec: "\<And>i. 1 \<le> i \<Longrightarrow> i < n \<Longrightarrow> F n ! i = F n ! (i - 1) + h i"
    by simp_all
  have "F (Suc n) ! i = F (Suc n) ! (i - 1) + h i" if "1 \<le> i" "i < Suc n" for i
  proof (cases "i < n")
    case True
    with that have "i - 1 < n" by simp
    with True that rec [of i] len show ?thesis by (simp add: step nth_append)
  next
    case False
    with that have "i = n" by simp
    with len Suc.hyps show ?thesis by (simp add: step nth_append)
  qed
  moreover have "F (Suc n) ! 0 = 0" using zero len Suc.hyps by (simp add: step nth_append)
  moreover have "length (F (Suc n)) = Suc n" using len by (simp add: step)
  ultimately show ?case by blast
qed

lemma cumulativeDistances_props:
  assumes "1 \<le> length g"
  shows "length (cumulativeDistances g) = length g"
    and "cumulativeDistances g ! 0 = 0"
    and "\<And>i. 1 \<le> i \<Longrightarrow> i < length g \<Longrightarrow>
           cumulativeDistances g ! i = cumulativeDistances g ! (i - 1) +
             haversineDistance (fst (g ! (i - 1))) (snd (g ! (i - 1))) (fst (g ! i)) (snd (g ! i))"
  using table_loop [OF assms, of "\<lambda>i. haversineDistance (fst (g ! (i - 1))) (snd (g ! (i - 1)))
                                      (fst (g ! i)) (snd (g ! i))"]
  unfolding cumulativeDistances_def by simp_all




lemma cd_two: "cumulativeDistances [p, q] = [0, haversineDistance (fst p) (snd p) (fst q) (snd q)]"
  by (simp add: cumulativeDistances_def)


subsection \<open>Index resolution and the fallback of the segment colourer\<close>

lemma findIndex_range: "- 1 \<le> findIndex P xs \<and> findIndex P xs < int (length xs)"
  by (induction xs) (auto simp: Let_def)

lemma findIndex_first:
  "0 \<le> findIndex P xs \<Longrightarrow>
   P (xs ! nat (findIndex P xs)) \<and> (\<forall>j < nat (findIndex P xs). \<not> P (xs ! j))"
proof (induction xs)
  case Nil
  then show ?case by simp
next
  case (Cons x xs)
  show ?case
  proof (cases "P x")
    case True
    then show ?thesis by simp
  next
    case False
    with Cons.prems have r: "0 \<le> findIndex P xs" and e: "findIndex P (x # xs) = findIndex P xs + 1"
      by (auto simp: Let_def split: if_splits)
    from Cons.IH [OF r] have 1: "P (xs ! nat (findIndex P xs))"
      and 2: "\<And>j. j < nat (findIndex P xs) \<Longrightarrow> \<not> P (xs ! j)" by blast+
    from r have n: "nat (findIndex P xs + 1) = Suc (nat (findIndex P xs))" by simp
    have "\<not> P ((x # xs) ! j)" if "j < Suc (nat (findIndex P xs))" for j
      using that False 2 by (cases j) simp_all
    with 1 show ?thesis unfolding e n by simp
  qed
qed

lemma findIndex_least:
  "j < length xs \<Longrightarrow> P (xs ! j) \<Longrightarrow> 0 \<le> findIndex P xs \<and> findIndex P xs \<le> int j"
proof (induction xs arbitrary: j)
  case Nil
  then show ?case by simp
next
  case (Cons x xs)
  show ?case
  proof (cases "P x")
    case True
    then show ?thesis by simp
  next
    case False
    with Cons.prems obtain k where k: "j = Suc k" by (cases j) auto
    with Cons.prems have "k < length xs" "P (xs ! k)" by simp_all
    from Cons.IH [OF this] False k show ?thesis by (simp add: Let_def)
  qed
qed

lemma findIndex_not_found: "findIndex P xs < 0 \<longleftrightarrow> (\<forall>x \<in> set xs. \<not> P x)"
proof
  assume "findIndex P xs < 0"
  show "\<forall>x \<in> set xs. \<not> P x"
  proof
    fix x assume "x \<in> set xs"
    then obtain j where "j < length xs" "xs ! j = x" by (auto simp: in_set_conv_nth)
    with findIndex_least [of j xs P] \<open>findIndex P xs < 0\<close> show "\<not> P x" by auto
  qed
next
  assume a: "\<forall>x \<in> set xs. \<not> P x"
  show "findIndex P xs < 0"
  proof (rule ccontr)
    assume "\<not> findIndex P xs < 0"
    then have r: "0 \<le> findIndex P xs" by simp
    from findIndex_first [OF r] have "P (xs ! nat (findIndex P xs))" by blast
    moreover from findIndex_range [of P xs] r have "nat (findIndex P xs) < length xs" by simp
    ultimately show False using a by (meson nth_mem)
  qed
qed


text \<open>
  C6, as the code has it. For a polyline of at least one point, each target is looked up
  as the first index of the table whose entry is at least the target (-1 when there is
  none). The start index is that index, or 0 when there is none; the end index is that
  index, or \<open>length - 1\<close> when there is none and also when the index found is 0. The start
  index is then lowered to the end index when it exceeds it. Both indices end up in
  \<open>[0, length - 1]\<close>, the start index not above the end index.
\<close>

theorem segmentIndices_resolution:
  assumes "1 \<le> length geometry"
  shows "let cd = cumulativeDistances geometry;
             foundStart = findIndex (\<lambda>d. d \<ge> startDistance) cd;
             foundEnd = findIndex (\<lambda>d. d \<ge> endDistance) cd;
             (startIdx, endIdx) = segmentIndices geometry cd startDistance endDistance
         in (0 \<le> foundStart \<longrightarrow> cd ! nat foundStart \<ge> startDistance \<and>
                                (\<forall>j < nat foundStart. cd ! j < startDistance)) \<and>
            (foundStart < 0 \<longrightarrow> foundStart = - 1 \<and> (\<forall>d \<in> set cd. d < startDistance)) \<and>
            (0 \<le> foundEnd \<longrightarrow> cd ! nat foundEnd \<ge> endDistance \<and>
                              (\<forall>j < nat foundEnd. cd ! j < endDistance)) \<and>
            (foundEnd < 0 \<longrightarrow> foundEnd = - 1 \<and> (\<forall>d \<in> set cd. d < endDistance)) \<and>
            endIdx = (if foundEnd \<le> 0 then int (length geometry) - 1 else foundEnd) \<and>
            startIdx = min (if foundStart < 0 then 0 else foundStart) endIdx \<and>
            0 \<le> startIdx \<and> startIdx \<le> endIdx \<and> endIdx \<le> int (length geometry) - 1"
proof -
  let ?cd = "cumulativeDistances geometry"
  let ?fs = "findIndex (\<lambda>d. d \<ge> startDistance) ?cd"
  let ?fe = "findIndex (\<lambda>d. d \<ge> endDistance) ?cd"
  have len: "length ?cd = length geometry" using assms by (rule cumulativeDistances_props(1))
  have fs: "- 1 \<le> ?fs" "?fs < int (length geometry)"
    using findIndex_range [of "\<lambda>d. d \<ge> startDistance" ?cd] len by simp_all
  have fe: "- 1 \<le> ?fe" "?fe < int (length geometry)"
    using findIndex_range [of "\<lambda>d. d \<ge> endDistance" ?cd] len by simp_all
  have a: "0 \<le> ?fs \<longrightarrow> ?cd ! nat ?fs \<ge> startDistance \<and> (\<forall>j < nat ?fs. ?cd ! j < startDistance)"
    using findIndex_first [of "\<lambda>d. d \<ge> startDistance" ?cd] by (auto simp: not_le)
  have b: "?fs < 0 \<longrightarrow> ?fs = - 1 \<and> (\<forall>d \<in> set ?cd. d < startDistance)"
    using findIndex_not_found [of "\<lambda>d. d \<ge> startDistance" ?cd] fs(1) by (auto simp: not_le)
  have c: "0 \<le> ?fe \<longrightarrow> ?cd ! nat ?fe \<ge> endDistance \<and> (\<forall>j < nat ?fe. ?cd ! j < endDistance)"
    using findIndex_first [of "\<lambda>d. d \<ge> endDistance" ?cd] by (auto simp: not_le)
  have d: "?fe < 0 \<longrightarrow> ?fe = - 1 \<and> (\<forall>d \<in> set ?cd. d < endDistance)"
    using findIndex_not_found [of "\<lambda>d. d \<ge> endDistance" ?cd] fe(1) by (auto simp: not_le)
  have e: "segmentIndices geometry ?cd startDistance endDistance =
           (min (if ?fs < 0 then 0 else ?fs) (if ?fe \<le> 0 then int (length geometry) - 1 else ?fe),
            if ?fe \<le> 0 then int (length geometry) - 1 else ?fe)"
    using fs fe assms by (auto simp: segmentIndices_def Let_def)
  have f: "0 \<le> min (if ?fs < 0 then 0 else ?fs) (if ?fe \<le> 0 then int (length geometry) - 1 else ?fe)"
    using assms by auto
  have g: "(if ?fe \<le> 0 then int (length geometry) - 1 else ?fe) \<le> int (length geometry) - 1"
    using fe by auto
  show ?thesis
    unfolding Let_def e using a b c d f g by simp
qed


lemma pi_not_le_zero: "\<not> pi \<le> 0"
  using pi_gt_zero by (simp only: not_le)

lemma haversine_tenth: "haversineDistance 0 0 0 (1 / 10) = 6371 * pi / 1800"
  using haversineDistance_equator [of "1 / 10" 0] by simp

lemma cd_tenth: "cumulativeDistances [(0, 0), (0, 1 / 10)] = [0, 6371 * pi / 1800]"
  by (simp add: cd_two haversine_tenth)

theorem segmentIndices_resolution_witness:
  "segmentIndices [(0, 0), (0, 1 / 10)] (cumulativeDistances [(0, 0), (0, 1 / 10)]) 0 (6371 * pi / 1800)
     = (0, 1)"
proof -
  have "1 \<le> length [(0::real, 0::real), (0, 1 / 10)]" by simp
  from segmentIndices_resolution [OF this, of 0 "6371 * pi / 1800"]
  show ?thesis
    by (simp add: cd_tenth Let_def split: prod.splits)
qed

text \<open>
  C6, as stated, fails for the end index: with an end target of 0 the search finds index 0,
  which lies in \<open>[0, length - 1]\<close>, yet the end index resolved is \<open>length - 1 = 1\<close>. A pair
  of weather points both at the start time therefore colours the whole polyline instead of
  being skipped.
\<close>

theorem segmentIndices_clamp_counterexample:
  "findIndex (\<lambda>d. d \<ge> 0) (cumulativeDistances [(0, 0), (0, 1 / 10)]) = 0 \<and>
   snd (segmentIndices [(0, 0), (0, 1 / 10)] (cumulativeDistances [(0, 0), (0, 1 / 10)]) 0 0) = 1 \<and>
   createRouteSegments [(0, 0), (0, 1 / 10)]
     (Some [plainPoint 0 True False, plainPoint 0 False True]) 1000 0
     = [WeatherSegment [(0, 0), (0, 1 / 10)] ''#94a3b8'' None]"
  by (simp add: cd_tenth segmentIndices_def createRouteSegments_def pairSegments_def
      fullSegmentPositions_def plainPoint_def slice_def getColorForWeather_def Let_def)

lemma pairSegments_empty_iff:
  "pairSegments g cd T D t0 a b = [] \<longleftrightarrow> length (fullSegmentPositions g cd T D t0 a b) < 2"
proof -
  let ?full = "fullSegmentPositions g cd T D t0 a b"
  have "length (slice ?full 0 (int (length ?full div 2) + 1)) > 1" if "\<not> length ?full < 2"
    using that by (simp add: slice_def Let_def)
  then show ?thesis by (auto simp: pairSegments_def Let_def)
qed

lemma segmentLoop_empty_iff:
  "segmentLoop body ws = [] \<longleftrightarrow> (\<forall>i. i + 1 < length ws \<longrightarrow> body (ws ! i) (ws ! (i + 1)) = [])"
proof (induction body ws rule: segmentLoop.induct)
  case (1 body a b rest)
  have "(\<forall>i. i + 1 < length (a # b # rest) \<longrightarrow> body ((a # b # rest) ! i) ((a # b # rest) ! (i + 1)) = [])
        \<longleftrightarrow> body a b = [] \<and> (\<forall>i. i + 1 < length (b # rest) \<longrightarrow> body ((b # rest) ! i) ((b # rest) ! (i + 1)) = [])"
    (is "?L \<longleftrightarrow> ?R")
  proof
    assume l: ?L
    from l [rule_format, of 0] have "body a b = []" by simp
    moreover have "body ((b # rest) ! i) ((b # rest) ! (i + 1)) = []" if "i + 1 < length (b # rest)" for i
      using l [rule_format, of "Suc i"] that by simp
    ultimately show ?R by blast
  next
    assume r: ?R
    show ?L
    proof (intro allI impI)
      fix i assume "i + 1 < length (a # b # rest)"
      then show "body ((a # b # rest) ! i) ((a # b # rest) ! (i + 1)) = []"
        using r by (cases i) auto
    qed
  qed
  with "1.IH" show ?case by simp
qed simp_all

text \<open>
  C8. \<^const>\<open>createRouteSegments\<close> is total and never returns the empty list. With no
  weather points or fewer than 2, and likewise when every consecutive pair is degenerate
  (its slice of the polyline has fewer than 2 points, so the loop pushes nothing), it
  returns exactly one segment: the whole polyline in the neutral colour \<open>#58a6ff\<close>.
\<close>

theorem createRouteSegments_fallback:
  "((weatherPoints = None \<or> (\<exists>ws. weatherPoints = Some ws \<and> length ws < 2)) \<longrightarrow>
      createRouteSegments geometry weatherPoints totalDuration startTime
        = [NeutralSegment geometry 0 ''#58a6ff'']) \<and>
   (\<forall>ws. weatherPoints = Some ws \<and>
      (\<forall>i. i + 1 < length ws \<longrightarrow>
         length (fullSegmentPositions geometry (cumulativeDistances geometry)
                   (last (cumulativeDistances geometry)) totalDuration startTime
                   (ws ! i) (ws ! (i + 1))) < 2) \<longrightarrow>
      createRouteSegments geometry weatherPoints totalDuration startTime
        = [NeutralSegment geometry 0 ''#58a6ff'']) \<and>
   createRouteSegments geometry weatherPoints totalDuration startTime \<noteq> []"
proof (intro conjI allI impI)
  assume "weatherPoints = None \<or> (\<exists>ws. weatherPoints = Some ws \<and> length ws < 2)"
  then show "createRouteSegments geometry weatherPoints totalDuration startTime
        = [NeutralSegment geometry 0 ''#58a6ff'']"
    by (auto simp: createRouteSegments_def)
next
  fix ws
  let ?body = "pairSegments geometry (cumulativeDistances geometry)
                 (last (cumulativeDistances geometry)) totalDuration startTime"
  assume a: "weatherPoints = Some ws \<and>
      (\<forall>i. i + 1 < length ws \<longrightarrow>
         length (fullSegmentPositions geometry (cumulativeDistances geometry)
                   (last (cumulativeDistances geometry)) totalDuration startTime
                   (ws ! i) (ws ! (i + 1))) < 2)"
  then have "\<forall>i. i + 1 < length ws \<longrightarrow> ?body (ws ! i) (ws ! (i + 1)) = []"
    by (simp add: pairSegments_empty_iff)
  then have "segmentLoop ?body ws = []" by (simp only: segmentLoop_empty_iff)
  with a show "createRouteSegments geometry weatherPoints totalDuration startTime
        = [NeutralSegment geometry 0 ''#58a6ff'']"
    by (simp add: createRouteSegments_def Let_def)
next
  show "createRouteSegments geometry weatherPoints totalDuration startTime \<noteq> []"
    by (simp add: createRouteSegments_def Let_def split: option.splits)
qed

theorem createRouteSegments_fallback_witness:
  "createRouteSegments [(0, 0), (0, 1 / 10)] None 1000 0
     = [NeutralSegment [(0, 0), (0, 1 / 10)] 0 ''#58a6ff''] \<and>
   createRouteSegments [(0, 0), (0, 1 / 10)] (Some [plainPoint 0 True True]) 1000 0
     = [NeutralSegment [(0, 0), (0, 1 / 10)] 0 ''#58a6ff''] \<and>
   createRouteSegments [(0, 0), (0, 1 / 10)]
     (Some [plainPoint 1000000 True False, plainPoint 1000000 False True]) 1000 0
     = [NeutralSegment [(0, 0), (0, 1 / 10)] 0 ''#58a6ff'']"
proof -
  let ?g = "[(0::real, 0::real), (0, 1 / 10)]"
  let ?ws = "[plainPoint 1000000 True False, plainPoint 1000000 False True]"
  have 1: "createRouteSegments ?g None 1000 0 = [NeutralSegment ?g 0 ''#58a6ff'']"
    using createRouteSegments_fallback [of None ?g 1000 0] by simp
  have 2: "createRouteSegments ?g (Some [plainPoint 0 True True]) 1000 0
             = [NeutralSegment ?g 0 ''#58a6ff'']"
    using createRouteSegments_fallback [of "Some [plainPoint 0 True True]" ?g 1000 0] by simp
  have "length (fullSegmentPositions ?g (cumulativeDistances ?g) (last (cumulativeDistances ?g))
                  1000 0 (?ws ! i) (?ws ! (i + 1))) < 2" if "i + 1 < length ?ws" for i
  proof -
    from that have "i = 0" by simp
    then show ?thesis
      by (simp add: cd_tenth fullSegmentPositions_def segmentIndices_def plainPoint_def
          slice_def Let_def pi_not_le_zero)
  qed
  then have 3: "createRouteSegments ?g (Some ?ws) 1000 0 = [NeutralSegment ?g 0 ''#58a6ff'']"
    using createRouteSegments_fallback [of "Some ?ws" ?g 1000 0] by blast
  from 1 2 3 show ?thesis by blast
qed

subsection \<open>The temporal sampler\<close>




























subsection \<open>Contiguity of the coloured segments\<close>

















end
